theory Spec2Isabelle
  imports Complex_Main "HOL-Library.Sublist" "HOL-Library.AList" "HOL-Library.Monad_Syntax"
begin

section \<open>Python strings\<close>

text \<open>
  A Python \<open>str\<close> is modelled as a \<open>string\<close> whose characters are the code points
  0 to 255 (Latin-1), one \<open>char\<close> per code point, so that \<open>length\<close> is Python's
  \<open>len\<close>.  The character classes below are the ones CPython uses for \<open>str.lower\<close>,
  \<open>str.split\<close>, \<open>str.strip\<close> and the regular-expression classes \<open>\s\<close> and \<open>\w\<close>,
  restricted to that range.
\<close>

definition code_point :: "char \<Rightarrow> nat" where
  "code_point c = of_char c"

definition lower_char :: "char \<Rightarrow> char" where
  "lower_char c =
     (let n = code_point c in
      if (65 \<le> n \<and> n \<le> 90) \<or> (192 \<le> n \<and> n \<le> 222 \<and> n \<noteq> 215)
      then char_of (n + 32) else c)"

definition lower :: "string \<Rightarrow> string" where
  "lower s = map lower_char s"

definition isspace :: "char \<Rightarrow> bool" where
  "isspace c =
     (let n = code_point c in
      (9 \<le> n \<and> n \<le> 13) \<or> (28 \<le> n \<and> n \<le> 32) \<or> n = 133 \<or> n = 160)"

definition isalnum :: "char \<Rightarrow> bool" where
  "isalnum c =
     (let n = code_point c in
      (48 \<le> n \<and> n \<le> 57) \<or> (65 \<le> n \<and> n \<le> 90) \<or> (97 \<le> n \<and> n \<le> 122) \<or>
      n = 170 \<or> n = 178 \<or> n = 179 \<or> n = 181 \<or> n = 185 \<or> n = 186 \<or>
      (188 \<le> n \<and> n \<le> 190) \<or> (192 \<le> n \<and> n \<le> 214) \<or>
      (216 \<le> n \<and> n \<le> 246) \<or> (248 \<le> n \<and> n \<le> 255))"

text \<open>The regular-expression class \<open>\w\<close>: alphanumeric or underscore.\<close>

definition word_char :: "char \<Rightarrow> bool" where
  "word_char c = (isalnum c \<or> c = CHR ''_'')"

text \<open>\<open>s.strip()\<close>: whitespace removed at both ends.\<close>

definition strip :: "string \<Rightarrow> string" where
  "strip s = rev (dropWhile isspace (rev (dropWhile isspace s)))"

text \<open>
  \<open>s.split()\<close>: the maximal runs of non-whitespace characters, scanned left to right;
  \<open>cur\<close> is the run being read.
\<close>

fun split_ws :: "string \<Rightarrow> string \<Rightarrow> string list" where
  "split_ws cur [] = (if cur = [] then [] else [cur])"
| "split_ws cur (c # cs) =
     (if isspace c then (if cur = [] then split_ws [] cs else cur # split_ws [] cs)
      else split_ws (cur @ [c]) cs)"

definition str_split :: "string \<Rightarrow> string list" where
  "str_split s = split_ws [] s"

text \<open>
  \<open>re.split(r'[.!?]+', s)\<close>: the pieces between maximal runs of delimiter characters;
  \<open>in_run\<close> says that the previous character was a delimiter, \<open>cur\<close> is the piece
  being read.
\<close>

definition sentence_delim :: "char \<Rightarrow> bool" where
  "sentence_delim c = (c = CHR ''.'' \<or> c = CHR ''!'' \<or> c = CHR ''?'')"

fun re_split_runs :: "string \<Rightarrow> bool \<Rightarrow> string \<Rightarrow> string list" where
  "re_split_runs cur in_run [] = [cur]"
| "re_split_runs cur in_run (c # cs) =
     (if sentence_delim c
      then (if in_run then re_split_runs [] True cs else cur # re_split_runs [] True cs)
      else re_split_runs (cur @ [c]) False cs)"

definition re_split :: "string \<Rightarrow> string list" where
  "re_split s = re_split_runs [] False s"

text \<open>
  \<open>s.split('\n\n')\<close>: the blocks between occurrences of two consecutive newlines,
  found left to right without overlap; \<open>cur\<close> is the block being read.
\<close>

definition newline :: char where
  "newline = CHR 0x0A"

fun split_blank_line :: "string \<Rightarrow> string \<Rightarrow> string list" where
  "split_blank_line cur (a # b # cs) =
     (if a = newline \<and> b = newline then cur # split_blank_line [] cs
      else split_blank_line (cur @ [a]) (b # cs))"
| "split_blank_line cur [a] = [cur @ [a]]"
| "split_blank_line cur [] = [cur]"

text \<open>\<open>q in s\<close> on strings: \<open>q\<close> occurs in \<open>s\<close> as a contiguous substring.\<close>

fun contains :: "string \<Rightarrow> string \<Rightarrow> bool" where
  "contains q [] = (q = [])"
| "contains q (c # cs) = (prefix q (c # cs) \<or> contains q cs)"

text \<open>\<open>str(n)\<close> for an integer: its decimal digits, with a minus sign when negative.\<close>

definition digit_char :: "nat \<Rightarrow> char" where
  "digit_char d = char_of (48 + d)"

fun str_nat :: "nat \<Rightarrow> string" where
  "str_nat n = (if n < 10 then [digit_char n] else str_nat (n div 10) @ [digit_char (n mod 10)])"

declare str_nat.simps [simp del]

definition str_int :: "int \<Rightarrow> string" where
  "str_int i = (if i < 0 then CHR ''-'' # str_nat (nat (- i)) else str_nat (nat i))"


section \<open>Python numbers\<close>

text \<open>
  Python's floats are idealised as exact rationals.  A call that raises
  \<open>ZeroDivisionError\<close> has the value \<open>None\<close>.  \<open>round(x, ndigits)\<close> rounds to the
  nearest multiple of \<open>10 ^ (- ndigits)\<close>, a tie going to the even neighbour.
\<close>

definition truediv :: "rat \<Rightarrow> rat \<Rightarrow> rat option" where
  "truediv a b = (if b = 0 then None else Some (a / b))"

definition round_half_even :: "rat \<Rightarrow> int" where
  "round_half_even x =
     (let f = \<lfloor>x\<rfloor>; d = x - of_int f in
      if d < 1 / 2 then f else if 1 / 2 < d then f + 1 else if even f then f else f + 1)"

definition py_round :: "rat \<Rightarrow> nat \<Rightarrow> rat" where
  "py_round x ndigits = of_int (round_half_even (x * 10 ^ ndigits)) / 10 ^ ndigits"

section \<open>DocumentStore\<close>

record document_data =
  title :: string
  content :: string
  author :: "string option"
  category :: "string option"
  tags :: "string list"

record document = document_data +
  id' :: string
  created_at :: string

text \<open>
  The dictionary \<open>documents\<close> keeps its keys in insertion order, so it is an association
  list: an assignment to a present key replaces the value in place, to a new key appends.
\<close>

record document_store =
  documents :: "(string \<times> document) list"
  next_id :: int

text \<open>\<open>now\<close> is the reading of \<open>datetime.now().isoformat()\<close> taken by the call.\<close>

definition add_document :: "string \<Rightarrow> document_data \<Rightarrow> document_store \<Rightarrow> string \<times> document_store" where
  "add_document now doc_data s =
     (let doc_id = str_int (next_id s);
          doc = \<lparr>title = title doc_data, content = content doc_data,
                 author = author doc_data, category = category doc_data,
                 tags = tags doc_data, id' = doc_id, created_at = now\<rparr>
      in (doc_id, \<lparr>documents = AList.update doc_id doc (documents s),
                    next_id = next_id s + 1\<rparr>))"

definition get_document :: "string \<Rightarrow> document_store \<Rightarrow> document option \<times> document_store" where
  "get_document doc_id s = (map_of (documents s) doc_id, s)"

definition search_documents :: "string \<Rightarrow> document_store \<Rightarrow> document list \<times> document_store" where
  "search_documents query0 s =
     (let query = lower query0;
          results = filter (\<lambda>doc. contains query (lower (title doc)) \<or>
                                   contains query (lower (content doc)) \<or>
                                   list_ex (\<lambda>tag. contains query (lower tag)) (tags doc))
                           (map snd (documents s))
      in (results, s))"

definition get_all_documents :: "document_store \<Rightarrow> document list \<times> document_store" where
  "get_all_documents s = (map snd (documents s), s)"

definition sample_docs :: "document_data list" where
  "sample_docs = [
    \<lparr>title = ''The Benefits of Renewable Energy'',
      content =
        ''Renewable energy sources like solar and wind power offer tremendous benefits '' @
        ''for our planet. They reduce greenhouse gas emissions, create jobs, and provide '' @
        ''sustainable solutions for future generations. Solar panels and wind turbines '' @
        ''are becoming more efficient and cost-effective each year.'',
      author = Some ''Dr. Sarah Johnson'', category = Some ''Environment'',
      tags = [''renewable'', ''energy'', ''sustainability'']\<rparr>,
    \<lparr>title = ''Introduction to Machine Learning'',
      content =
        ''Machine learning is a subset of artificial intelligence that enables computers '' @
        ''to learn without being explicitly programmed. It involves algorithms that can '' @
        ''identify patterns in data and make predictions. Popular techniques include '' @
        ''supervised learning, unsupervised learning, and reinforcement learning.'',
      author = Some ''Prof. Alex Chen'', category = Some ''Technology'',
      tags = [''machine learning'', ''AI'', ''algorithms'']\<rparr>,
    \<lparr>title = ''Healthy Eating Habits'',
      content =
        ''Maintaining a balanced diet is crucial for good health. Include plenty of '' @
        ''fruits, vegetables, whole grains, and lean proteins in your meals. Limit '' @
        ''processed foods, sugary drinks, and excessive amounts of saturated fats. '' @
        ''Regular meal times and proper hydration are equally important.'',
      author = Some ''Lisa Martinez'', category = Some ''Health'',
      tags = [''nutrition'', ''diet'', ''wellness'']\<rparr>,
    \<lparr>title = ''The Art of Photography'',
      content =
        ''Photography is both an art and a science. Understanding composition, lighting, '' @
        ''and timing can dramatically improve your photos. The rule of thirds, leading '' @
        ''lines, and proper exposure are fundamental concepts every photographer should '' @
        ''master.'',
      author = Some ''Michael Thompson'', category = Some ''Arts'',
      tags = [''photography'', ''composition'', ''art'']\<rparr>,
    \<lparr>title = ''Climate Change Impact'',
      content =
        ''Climate change poses significant challenges to our planet. Rising '' @
        ''temperatures, melting ice caps, and extreme weather events are becoming more '' @
        ''frequent. We must take immediate action to reduce carbon emissions and '' @
        ''transition to sustainable practices.'',
      author = Some ''Dr. Emma Wilson'', category = Some ''Environment'',
      tags = [''climate'', ''global warming'', ''environment'']\<rparr>,
    \<lparr>title = ''Financial Planning for Beginners'',
      content =
        ''Starting your financial journey can seem overwhelming, but it doesn't have to '' @
        ''be. Begin with creating a budget, building an emergency fund, and '' @
        ''understanding the basics of investing. Compound interest is your friend when '' @
        ''you start early.'',
      author = Some ''Robert Davis'', category = Some ''Finance'',
      tags = [''finance'', ''budgeting'', ''investing'']\<rparr>,
    \<lparr>title = ''The Future of Transportation'',
      content =
        ''Transportation is evolving rapidly with electric vehicles, autonomous driving, '' @
        ''and hyperloop technology. These innovations promise to reduce emissions, '' @
        ''improve safety, and revolutionize how we move people and goods.'',
      author = Some ''Jennifer Lee'', category = Some ''Technology'',
      tags = [''transportation'', ''electric vehicles'', ''innovation'']\<rparr>,
    \<lparr>title = ''Effective Team Communication'',
      content =
        ''Clear communication is the foundation of successful teams. Active listening, '' @
        ''regular feedback, and open dialogue foster collaboration. Use appropriate '' @
        ''communication channels and be respectful of different perspectives and working '' @
        ''styles.'',
      author = Some ''David Park'', category = Some ''Business'',
      tags = [''communication'', ''teamwork'', ''leadership'']\<rparr>,
    \<lparr>title = ''Gardening for Beginners'',
      content =
        ''Starting a garden can be incredibly rewarding. Choose plants suitable for your '' @
        ''climate and soil type. Proper watering, sunlight, and fertilization are '' @
        ''essential for healthy plant growth. Start small and expand your garden as you '' @
        ''gain experience.'',
      author = Some ''Mary Rodriguez'', category = Some ''Lifestyle'',
      tags = [''gardening'', ''plants'', ''outdoor'']\<rparr>,
    \<lparr>title = ''The Science of Sleep'',
      content =
        ''Sleep is essential for physical and mental health. During sleep, our bodies '' @
        ''repair tissues, consolidate memories, and regulate hormones. Most adults need '' @
        ''7-9 hours of quality sleep per night for optimal functioning.'',
      author = Some ''Dr. James Williams'', category = Some ''Health'',
      tags = [''sleep'', ''health'', ''wellness'']\<rparr>,
    \<lparr>title = ''Digital Marketing Strategies'',
      content =
        ''Digital marketing has transformed how businesses reach customers. Social '' @
        ''media, content marketing, and search engine optimization are key components. '' @
        ''Understanding your target audience and measuring campaign performance are '' @
        ''crucial for success.'',
      author = Some ''Amanda Clark'', category = Some ''Business'',
      tags = [''marketing'', ''digital'', ''social media'']\<rparr>,
    \<lparr>title = ''Mindfulness and Meditation'',
      content =
        ''Mindfulness practices can reduce stress and improve mental clarity. Regular '' @
        ''meditation, even for just 10 minutes daily, can have profound benefits. Focus '' @
        ''on breathing, body awareness, and present-moment attention.'',
      author = Some ''Sarah Kumar'', category = Some ''Wellness'',
      tags = [''mindfulness'', ''meditation'', ''stress relief'']\<rparr>,
    \<lparr>title = ''Sustainable Living Tips'',
      content =
        ''Small changes in daily habits can make a big environmental impact. Reduce '' @
        ''waste, conserve energy, choose eco-friendly products, and support sustainable '' @
        ''businesses. Every action contributes to a healthier planet.'',
      author = Some ''Green Living Team'', category = Some ''Environment'',
      tags = [''sustainability'', ''eco-friendly'', ''green living'']\<rparr>,
    \<lparr>title = ''The Power of Reading'',
      content =
        ''Reading books expands knowledge, improves vocabulary, and enhances critical '' @
        ''thinking skills. Whether fiction or non-fiction, books provide entertainment, '' @
        ''education, and personal growth opportunities. Make reading a daily habit.'',
      author = Some ''Library Association'', category = Some ''Education'',
      tags = [''reading'', ''books'', ''education'']\<rparr>,
    \<lparr>title = ''Coding Best Practices'',
      content =
        ''Writing clean, maintainable code is essential for software development. Use '' @
        ''meaningful variable names, write comments, follow coding standards, and test '' @
        ''your code regularly. Code review and refactoring improve code quality over '' @
        ''time.'',
      author = Some ''Tech Team'', category = Some ''Technology'',
      tags = [''coding'', ''programming'', ''best practices'']\<rparr>,
    \<lparr>title = ''Travel Safety Tips'',
      content =
        ''Traveling safely requires preparation and awareness. Research your '' @
        ''destination, keep copies of important documents, stay alert in crowded areas, '' @
        ''and trust your instincts. Travel insurance provides additional peace of mind.'',
      author = Some ''Travel Safety Council'', category = Some ''Travel'',
      tags = [''travel'', ''safety'', ''tips'']\<rparr>]"

text \<open>
  The loop of \<open>_initialize_sample_documents\<close>; \<open>clock k\<close> is the time read by the
  \<open>k\<close>-th insertion.
\<close>

fun add_documents :: "(nat \<Rightarrow> string) \<Rightarrow> nat \<Rightarrow> document_data list \<Rightarrow> document_store \<Rightarrow> document_store" where
  "add_documents clock k [] s = s"
| "add_documents clock k (doc_data # rest) s =
     add_documents clock (Suc k) rest (snd (add_document (clock k) doc_data s))"

definition initialize_sample_documents :: "(nat \<Rightarrow> string) \<Rightarrow> document_store \<Rightarrow> document_store" where
  "initialize_sample_documents clock s = add_documents clock 0 sample_docs s"

definition DocumentStore_init :: "(nat \<Rightarrow> string) \<Rightarrow> document_store" where
  "DocumentStore_init clock =
     initialize_sample_documents clock \<lparr>documents = [], next_id = 1\<rparr>"

text \<open>
  The states of the store: the constructor's, and those any method call leads to;
  \<open>n\<close> counts the calls of \<open>add_document\<close> made after construction.
\<close>

inductive reachable :: "nat \<Rightarrow> document_store \<Rightarrow> bool" where
  init: "reachable 0 (DocumentStore_init clock)"
| add: "reachable n s \<Longrightarrow> reachable (Suc n) (snd (add_document now doc_data s))"
| get: "reachable n s \<Longrightarrow> reachable n (snd (get_document i s))"
| search: "reachable n s \<Longrightarrow> reachable n (snd (search_documents query s))"
| list: "reachable n s \<Longrightarrow> reachable n (snd (get_all_documents s))"

section \<open>TextAnalyzer: normalisation\<close>

text \<open>\<open>re.sub(r'[^\w\s]', '', text.lower())\<close>\<close>

definition clean_text :: "string \<Rightarrow> string" where
  "clean_text text = filter (\<lambda>c. word_char c \<or> isspace c) (lower text)"

definition get_words :: "string \<Rightarrow> string list" where
  "get_words text = filter (\<lambda>word. word \<noteq> []) (str_split (clean_text text))"

definition get_sentences :: "string \<Rightarrow> string list" where
  "get_sentences text = map strip (filter (\<lambda>s. strip s \<noteq> []) (re_split text))"

subsection \<open>Identifiers and matching as the specification words them\<close>

text \<open>The number a string of decimal digits denotes in base 10.\<close>

definition decimal_value :: "string \<Rightarrow> nat" where
  "decimal_value ds = foldl (\<lambda>acc c. 10 * acc + (code_point c - 48)) 0 ds"

text \<open>\<open>q\<close> is a substring of \<open>s\<close>.\<close>

definition is_substring :: "string \<Rightarrow> string \<Rightarrow> bool" where
  "is_substring q s = (\<exists>pre suf. s = pre @ q @ suf)"

text \<open>The identifiers given out before the counter reached \<open>n\<close>, in order.\<close>

definition ids_upto :: "nat \<Rightarrow> string list" where
  "ids_upto n = map (\<lambda>k. str_int (int k)) [1..<n]"

text \<open>The store after \<open>n - 1\<close> insertions.\<close>

definition store_inv :: "nat \<Rightarrow> document_store \<Rightarrow> bool" where
  "store_inv n s =
     (map fst (documents s) = ids_upto n \<and> next_id s = int n \<and>
      map (\<lambda>kd. id' (snd kd)) (documents s) = map fst (documents s))"

section \<open>TextAnalyzer: lexicons\<close>

definition POSITIVE_WORDS :: "string list" where
  "POSITIVE_WORDS = [
     ''good'', ''great'', ''excellent'', ''amazing'', ''wonderful'', ''fantastic'', ''awesome'',
     ''love'', ''like'', ''enjoy'', ''happy'', ''pleased'', ''satisfied'', ''delighted'',
     ''benefits'', ''advantages'', ''success'', ''effective'', ''efficient'', ''improve'',
     ''better'', ''best'', ''perfect'', ''outstanding'', ''remarkable'', ''positive'',
     ''opportunity'', ''solution'', ''helpful'', ''useful'', ''valuable'', ''important'',
     ''essential'', ''crucial'', ''significant'', ''rewarding'', ''promising'']"

definition NEGATIVE_WORDS :: "string list" where
  "NEGATIVE_WORDS = [
     ''bad'', ''terrible'', ''awful'', ''horrible'', ''hate'', ''dislike'', ''sad'',
     ''disappointed'', ''frustrated'', ''angry'', ''annoyed'', ''problems'', ''issues'',
     ''challenges'', ''difficult'', ''hard'', ''impossible'', ''failure'', ''fail'',
     ''worst'', ''poor'', ''disappointing'', ''negative'', ''wrong'', ''error'',
     ''mistakes'', ''concerning'', ''worried'', ''stress'', ''overwhelming'']"

definition STOP_WORDS :: "string list" where
  "STOP_WORDS = [
     ''the'', ''a'', ''an'', ''and'', ''or'', ''but'', ''in'', ''on'', ''at'', ''to'', ''for'',
     ''of'', ''with'', ''by'', ''is'', ''are'', ''was'', ''were'', ''be'', ''been'', ''have'',
     ''has'', ''had'', ''do'', ''does'', ''did'', ''will'', ''would'', ''could'', ''should'',
     ''may'', ''might'', ''can'', ''this'', ''that'', ''these'', ''those'', ''i'', ''you'',
     ''he'', ''she'', ''it'', ''we'', ''they'', ''me'', ''him'', ''her'', ''us'', ''them'',
     ''my'', ''your'', ''his'', ''her'', ''its'', ''our'', ''their'', ''all'', ''any'',
     ''each'', ''few'', ''more'', ''most'', ''other'', ''some'', ''such'', ''no'', ''not'',
     ''only'', ''own'', ''same'', ''so'', ''than'', ''too'', ''very'', ''just'', ''now'']"

section \<open>TextAnalyzer: sentiment\<close>

record sentiment_scores =
  scores_positive :: rat
  scores_negative :: rat
  scores_neutral :: rat

record sentiment_result =
  sentiment :: string
  confidence :: rat
  scores :: sentiment_scores

definition analyze_sentiment :: "string \<Rightarrow> sentiment_result option" where
  "analyze_sentiment text =
     (let words = get_words text;
          positive_count = length (filter (\<lambda>word. word \<in> set POSITIVE_WORDS) words);
          negative_count = length (filter (\<lambda>word. word \<in> set NEGATIVE_WORDS) words);
          total_words = length words
      in if total_words = 0
         then Some \<lparr>sentiment = ''neutral'', confidence = 0,
                    scores = \<lparr>scores_positive = 0, scores_negative = 0, scores_neutral = 0\<rparr>\<rparr>
         else do {
           positive_score \<leftarrow> truediv (of_nat positive_count) (of_nat total_words);
           negative_score \<leftarrow> truediv (of_nat negative_count) (of_nat total_words);
           let (sentiment, confidence) =
                 (if positive_score > negative_score then (''positive'', positive_score)
                  else if negative_score > positive_score then (''negative'', negative_score)
                  else (''neutral'', 1 / 2));
           Some \<lparr>sentiment = sentiment, confidence = py_round confidence 3,
                  scores = \<lparr>scores_positive = py_round positive_score 3,
                            scores_negative = py_round negative_score 3,
                            scores_neutral = py_round (1 - positive_score - negative_score) 3\<rparr>\<rparr>
         })"

subsection \<open>The scores as the specification words them\<close>

definition positive_score :: "string \<Rightarrow> rat" where
  "positive_score text =
     of_nat (length (filter (\<lambda>w. w \<in> set POSITIVE_WORDS) (get_words text))) /
     of_nat (length (get_words text))"

definition negative_score :: "string \<Rightarrow> rat" where
  "negative_score text =
     of_nat (length (filter (\<lambda>w. w \<in> set NEGATIVE_WORDS) (get_words text))) /
     of_nat (length (get_words text))"

section \<open>TextAnalyzer: keywords\<close>

text \<open>
  \<open>Counter(words)\<close> counts the elements in the order met:
  \<open>mapping[elem] = mapping.get(elem, 0) + 1\<close> for each of them.
\<close>

definition counter_add :: "(string \<times> nat) list \<Rightarrow> string \<Rightarrow> (string \<times> nat) list" where
  "counter_add mapping elem =
     AList.update elem ((case map_of mapping elem of None \<Rightarrow> 0 | Some c \<Rightarrow> c) + 1) mapping"

definition Counter :: "string list \<Rightarrow> (string \<times> nat) list" where
  "Counter elems = foldl counter_add [] elems"

text \<open>
  \<open>most_common(n)\<close> is \<open>heapq.nlargest(n, items, key = count)\<close>: nothing for
  \<open>n \<le> 0\<close>, otherwise the first \<open>n\<close> items of the stable sort by descending count.
\<close>

definition most_common :: "int \<Rightarrow> (string \<times> nat) list \<Rightarrow> (string \<times> nat) list" where
  "most_common n items =
     (if n \<le> 0 then [] else take (nat n) (sort_key (\<lambda>(w, c). - int c) items))"

record keyword =
  word :: string
  frequency :: nat
  relevance :: rat

fun keyword_entries :: "nat \<Rightarrow> (string \<times> nat) list \<Rightarrow> keyword list option" where
  "keyword_entries total_words [] = Some []"
| "keyword_entries total_words ((w, count) # rest) = do {
     r \<leftarrow> (if total_words > 0
           then map_option (\<lambda>q. py_round q 3) (truediv (of_nat count) (of_nat total_words))
           else Some 0);
     keywords \<leftarrow> keyword_entries total_words rest;
     Some (\<lparr>word = w, frequency = count, relevance = r\<rparr> # keywords)
   }"

definition filtered_words :: "string \<Rightarrow> string list" where
  "filtered_words text =
     filter (\<lambda>word. word \<notin> set STOP_WORDS \<and> length word > 2) (get_words text)"

definition extract_keywords :: "string \<Rightarrow> int \<Rightarrow> keyword list option" where
  "extract_keywords text limit =
     (let word_counts = Counter (filtered_words text);
          top_keywords = most_common limit word_counts;
          total_words = length (filtered_words text)
      in keyword_entries total_words top_keywords)"

subsection \<open>Ranking as the specification words it\<close>

text \<open>The distinct words of a list, in the order of their first occurrence.\<close>

definition first_seen :: "string list \<Rightarrow> string list" where
  "first_seen ws = rev (remdups (rev ws))"

text \<open>The position at which a word is first met.\<close>

definition first_pos :: "string list \<Rightarrow> string \<Rightarrow> nat" where
  "first_pos ws w = length (takeWhile (\<lambda>x. x \<noteq> w) ws)"

text \<open>
  \<open>a\<close> ranks before \<open>b\<close>: it is more frequent, or as frequent and met earlier.
\<close>

definition ranks_before :: "string list \<Rightarrow> string \<Rightarrow> string \<Rightarrow> bool" where
  "ranks_before ws a b =
     (count_list ws b < count_list ws a \<or>
      (count_list ws a = count_list ws b \<and> first_pos ws a < first_pos ws b))"

text \<open>The distinct words sorted stably by descending frequency.\<close>

definition ranked :: "string list \<Rightarrow> string list" where
  "ranked ws = sort_key (\<lambda>k. - int (count_list ws k)) (first_seen ws)"

text \<open>The entry of a word: its frequency, and its share of the kept words, rounded.\<close>

definition keyword_of :: "string list \<Rightarrow> string \<Rightarrow> keyword" where
  "keyword_of ws k =
     \<lparr>word = k, frequency = count_list ws k,
      relevance = py_round (of_nat (count_list ws k) / of_nat (length ws)) 3\<rparr>"

section \<open>TextAnalyzer: syllables\<close>

definition vowels :: string where
  "vowels = ''aeiouy''"

text \<open>
  The loop of \<open>count_syllables\<close>, with its two variables \<open>syllable_count\<close> and
  \<open>previous_was_vowel\<close> as the state.
\<close>

fun syllable_loop :: "string \<Rightarrow> nat \<times> bool \<Rightarrow> nat \<times> bool" where
  "syllable_loop [] st = st"
| "syllable_loop (c # cs) (syllable_count, previous_was_vowel) =
     (if c \<in> set vowels
      then syllable_loop cs
             (if \<not> previous_was_vowel then syllable_count + 1 else syllable_count, True)
      else syllable_loop cs (syllable_count, False))"

definition endswith_e :: "string \<Rightarrow> bool" where
  "endswith_e w = (w \<noteq> [] \<and> last w = CHR ''e'')"

definition count_syllables :: "string \<Rightarrow> nat" where
  "count_syllables word0 =
     (let word = lower word0;
          syllable_count = fst (syllable_loop word (0, False));
          syllable_count = (if endswith_e word \<and> syllable_count > 1
                            then syllable_count - 1 else syllable_count)
      in max 1 syllable_count)"

subsection \<open>The estimator as the specification words it\<close>



section \<open>TextAnalyzer: readability\<close>

record readability_result =
  flesch_reading_ease :: rat
  flesch_grade_level :: rat
  avg_sentence_length :: rat
  avg_word_length :: rat
  difficulty :: string

definition difficulty_of :: "rat \<Rightarrow> string" where
  "difficulty_of flesch_score =
     (if flesch_score \<ge> 90 then ''very easy''
      else if flesch_score \<ge> 80 then ''easy''
      else if flesch_score \<ge> 70 then ''fairly easy''
      else if flesch_score \<ge> 60 then ''standard''
      else if flesch_score \<ge> 50 then ''fairly difficult''
      else if flesch_score \<ge> 30 then ''difficult''
      else ''very difficult'')"

definition calculate_readability :: "string \<Rightarrow> readability_result option" where
  "calculate_readability text =
     (let words = get_words text;
          sentences = get_sentences text
      in if sentences = [] \<or> words = []
         then Some \<lparr>flesch_reading_ease = 0, flesch_grade_level = 0,
                    avg_sentence_length = 0, avg_word_length = 0, difficulty = ''unknown''\<rparr>
         else do {
           let total_words = length words;
           let total_sentences = length sentences;
           let total_syllables = sum_list (map count_syllables words);
           avg_sentence_len \<leftarrow> truediv (of_nat total_words) (of_nat total_sentences);
           avg_syllables_per_word \<leftarrow> truediv (of_nat total_syllables) (of_nat total_words);
           avg_word_len \<leftarrow> truediv (of_nat (sum_list (map length words))) (of_nat total_words);
           let flesch_score = 206.835 - (1.015 * avg_sentence_len) - (84.6 * avg_syllables_per_word);
           let flesch_score = max 0 (min 100 flesch_score);
           let grade_level = (0.39 * avg_sentence_len) + (11.8 * avg_syllables_per_word) - 15.59;
           let grade_level = max 0 grade_level;
           Some \<lparr>flesch_reading_ease = py_round flesch_score 2,
                  flesch_grade_level = py_round grade_level 2,
                  avg_sentence_length = py_round avg_sentence_len 2,
                  avg_word_length = py_round avg_word_len 2,
                  difficulty = difficulty_of flesch_score\<rparr>
         })"

subsection \<open>The formulas as the specification words them\<close>

definition avg_sentence_len :: "string \<Rightarrow> rat" where
  "avg_sentence_len text =
     of_nat (length (get_words text)) / of_nat (length (get_sentences text))"

definition avg_syllables_per_word :: "string \<Rightarrow> rat" where
  "avg_syllables_per_word text =
     of_nat (sum_list (map count_syllables (get_words text))) /
     of_nat (length (get_words text))"

definition reading_ease :: "string \<Rightarrow> rat" where
  "reading_ease text =
     206.835 - 1.015 * avg_sentence_len text - 84.6 * avg_syllables_per_word text"

definition grade_level :: "string \<Rightarrow> rat" where
  "grade_level text =
     0.39 * avg_sentence_len text + 11.8 * avg_syllables_per_word text - 15.59"

definition clamp_0_100 :: "rat \<Rightarrow> rat" where
  "clamp_0_100 x = (if x < 0 then 0 else if 100 < x then 100 else x)"

definition floor_at_0 :: "rat \<Rightarrow> rat" where
  "floor_at_0 x = (if x < 0 then 0 else x)"

section \<open>TextAnalyzer: statistics\<close>

record text_stats =
  word_count :: nat
  sentence_count :: nat
  character_count :: nat
  character_count_no_spaces :: nat
  paragraph_count :: nat
  avg_words_per_sentence :: rat

definition get_text_stats :: "string \<Rightarrow> text_stats option" where
  "get_text_stats text =
     (let words = get_words text;
          sentences = get_sentences text
      in do {
        avg \<leftarrow> (if sentences \<noteq> []
                then map_option (\<lambda>q. py_round q 2)
                       (truediv (of_nat (length words)) (of_nat (length sentences)))
                else Some 0);
        Some \<lparr>word_count = length words,
               sentence_count = length sentences,
               character_count = length text,
               character_count_no_spaces = length (filter (\<lambda>c. c \<noteq> CHR '' '') text),
               paragraph_count =
                 length (filter (\<lambda>p. strip p \<noteq> []) (split_blank_line [] text)),
               avg_words_per_sentence = avg\<rparr>
      })"

subsection \<open>Blocks as the specification words them\<close>



section \<open>The tools on the store\<close>

text \<open>
  A tool answers with a mapping: either \<open>{"error": message}\<close> or its result.
\<close>

datatype 'a payload = Error_payload string | Result 'a

record analysis =
  analysis_document_id :: string
  analysis_title :: string
  analysis_author :: "string option"
  analysis_category :: "string option"
  analysis_sentiment :: sentiment_result
  analysis_keywords :: "keyword list"
  analysis_readability :: readability_result
  analysis_stats :: text_stats
  analysis_timestamp :: string

definition not_found :: "string \<Rightarrow> string" where
  "not_found document_id = ''Document with ID '' @ document_id @ '' not found''"

definition analyze_document :: "string \<Rightarrow> string \<Rightarrow> document_store \<Rightarrow> analysis payload option \<times> document_store" where
  "analyze_document now document_id s0 =
     (let (document, s) = get_document document_id s0 in
      case document of
        None \<Rightarrow> (Some (Error_payload (not_found document_id)), s)
      | Some doc \<Rightarrow>
          (do {
             let text = content doc;
             sentiment \<leftarrow> analyze_sentiment text;
             keywords \<leftarrow> extract_keywords text 10;
             readability \<leftarrow> calculate_readability text;
             stats \<leftarrow> get_text_stats text;
             Some (Result \<lparr>analysis_document_id = document_id,
                            analysis_title = title doc,
                            analysis_author = author doc,
                            analysis_category = category doc,
                            analysis_sentiment = sentiment,
                            analysis_keywords = keywords,
                            analysis_readability = readability,
                            analysis_stats = stats,
                            analysis_timestamp = now\<rparr>)
           }, s))"

definition get_document_info :: "string \<Rightarrow> document_store \<Rightarrow> document payload \<times> document_store" where
  "get_document_info document_id s0 =
     (let (document, s) = get_document document_id s0 in
      case document of
        None \<Rightarrow> (Error_payload (not_found document_id), s)
      | Some doc \<Rightarrow> (Result doc, s))"

section \<open>The syllable estimator\<close>







section \<open>Words and sentences\<close>

lemma split_ws_all_space:
  "\<forall>c\<in>set s. isspace c \<Longrightarrow> split_ws [] s = []"
  by (induction s) auto

lemma split_nonempty_char:
  assumes "str_split s \<noteq> []"
  shows "\<exists>c\<in>set s. \<not> isspace c"
  using assms split_ws_all_space [of s] unfolding str_split_def by blast

lemma code_point_delims:
  "code_point CHR ''.'' = 46" "code_point CHR ''!'' = 33" "code_point CHR ''?'' = 63"
  "code_point CHR ''_'' = 95"
  by (simp_all add: code_point_def)

lemma isspace_lower_char: "isspace c \<Longrightarrow> lower_char c = c"
  by (auto simp: isspace_def lower_char_def Let_def)

lemma delim_lower_char: "sentence_delim c \<Longrightarrow> lower_char c = c \<and> \<not> word_char c"
  by (auto simp: sentence_delim_def lower_char_def word_char_def isalnum_def Let_def
      code_point_delims)

lemma word_char_origin:
  assumes "word_char (lower_char c)" "\<not> isspace (lower_char c)"
  shows "\<not> isspace c \<and> \<not> sentence_delim c"
  using assms isspace_lower_char [of c] delim_lower_char [of c] by auto

lemma re_split_runs_keeps:
  "in_run \<longrightarrow> cur = [] \<Longrightarrow> c \<in> set cur \<or> c \<in> set s \<Longrightarrow> \<not> sentence_delim c \<Longrightarrow>
   \<exists>p\<in>set (re_split_runs cur in_run s). c \<in> set p"
proof (induction s arbitrary: cur in_run)
  case Nil
  then show ?case by simp
next
  case (Cons a s)
  show ?case
  proof (cases "sentence_delim a")
    case True
    with Cons.prems have ca: "c \<noteq> a" by auto
    show ?thesis
    proof (cases "c \<in> set cur")
      case True
      with Cons.prems(1) have "\<not> in_run" by auto
      with \<open>sentence_delim a\<close> True show ?thesis by simp
    next
      case False
      with Cons.prems ca have "c \<in> set s" by auto
      then have "\<exists>p\<in>set (re_split_runs [] True s). c \<in> set p"
        using Cons.IH [of True "[]"] Cons.prems(3) by simp
      with \<open>sentence_delim a\<close> show ?thesis by auto
    qed
  next
    case False
    have "c \<in> set (cur @ [a]) \<or> c \<in> set s" using Cons.prems(2) by auto
    then have "\<exists>p\<in>set (re_split_runs (cur @ [a]) False s). c \<in> set p"
      using Cons.IH [of False "cur @ [a]"] Cons.prems(3) by simp
    with False show ?thesis by simp
  qed
qed

lemma dropWhile_keeps: "x \<in> set xs \<Longrightarrow> \<not> P x \<Longrightarrow> x \<in> set (dropWhile P xs)"
  by (induction xs) auto

lemma strip_keeps: "c \<in> set p \<Longrightarrow> \<not> isspace c \<Longrightarrow> c \<in> set (strip p)"
  unfolding strip_def by (simp add: dropWhile_keeps)

lemma get_words_char:
  assumes "get_words text \<noteq> []"
  shows "\<exists>c\<in>set text. \<not> isspace c \<and> \<not> sentence_delim c"
proof -
  from assms have "str_split (clean_text text) \<noteq> []"
    unfolding get_words_def by auto
  then obtain d where d: "d \<in> set (clean_text text)" "\<not> isspace d"
    using split_nonempty_char by blast
  then obtain c where c: "c \<in> set text" "d = lower_char c" "word_char d"
    unfolding clean_text_def lower_def by auto
  with d word_char_origin [of c] show ?thesis by auto
qed

lemma get_sentences_nonempty: "get_words text \<noteq> [] \<Longrightarrow> get_sentences text \<noteq> []"
proof -
  assume "get_words text \<noteq> []"
  then obtain c where c: "c \<in> set text" "\<not> isspace c" "\<not> sentence_delim c"
    using get_words_char by blast
  then obtain p where p: "p \<in> set (re_split text)" "c \<in> set p"
    using re_split_runs_keeps [of False "[]" c "text"] unfolding re_split_def by auto
  with c have "strip p \<noteq> []" using strip_keeps [of c p] by auto
  with p show ?thesis unfolding get_sentences_def by (auto simp: filter_empty_conv)
qed


lemma truediv_Some: "b \<noteq> 0 \<Longrightarrow> truediv a b = Some (a / b)"
  by (simp add: truediv_def)

lemma difficulty_of_known: "difficulty_of x \<noteq> ''unknown''"
  by (simp add: difficulty_of_def)

lemma calculate_readability_no_words:
  "get_words text = [] \<Longrightarrow>
   calculate_readability text =
     Some \<lparr>flesch_reading_ease = 0, flesch_grade_level = 0,
            avg_sentence_length = 0, avg_word_length = 0, difficulty = ''unknown''\<rparr>"
  by (simp add: calculate_readability_def)

lemma calculate_readability_words:
  assumes "get_words text \<noteq> []" "get_sentences text \<noteq> []"
  shows "\<exists>r. calculate_readability text = Some r \<and> difficulty r \<noteq> ''unknown''"
  using assms
  by (simp add: calculate_readability_def Let_def truediv_Some difficulty_of_known)

lemma get_text_stats_total: "get_text_stats text \<noteq> None"
  by (simp add: get_text_stats_def Let_def truediv_Some)

text \<open>
  C10: a text with at least one normalised word has at least one sentence: a word
  character is neither whitespace nor one of \<open>.!?\<close>, so it survives the sentence split
  and keeps its piece non-blank.  Hence \<open>calculate_readability\<close> takes its all-zero
  "unknown" branch exactly when the text has no words, and with at least one word neither
  \<open>calculate_readability\<close> nor \<open>get_text_stats\<close> divides by a zero sentence count.
\<close>

theorem words_need_sentences:
  "(get_words text \<noteq> [] \<longrightarrow> get_sentences text \<noteq> []) \<and>
   ((get_sentences text = [] \<or> get_words text = []) \<longleftrightarrow> get_words text = []) \<and>
   ((\<exists>r. calculate_readability text = Some r \<and> difficulty r = ''unknown'') \<longleftrightarrow>
      get_words text = []) \<and>
   (get_words text \<noteq> [] \<longrightarrow>
      calculate_readability text \<noteq> None \<and> get_text_stats text \<noteq> None)"
proof -
  have a: "get_words text \<noteq> [] \<longrightarrow> get_sentences text \<noteq> []"
    using get_sentences_nonempty by blast
  then have b: "(get_sentences text = [] \<or> get_words text = []) \<longleftrightarrow> get_words text = []"
    by blast
  have c: "(\<exists>r. calculate_readability text = Some r \<and> difficulty r = ''unknown'') \<longleftrightarrow>
      get_words text = []"
  proof (cases "get_words text = []")
    case True
    then show ?thesis using calculate_readability_no_words [of "text"] by simp
  next
    case False
    with a have "get_sentences text \<noteq> []" by blast
    with False show ?thesis using calculate_readability_words [of "text"] by auto
  qed
  have d: "get_words text \<noteq> [] \<longrightarrow>
      calculate_readability text \<noteq> None \<and> get_text_stats text \<noteq> None"
    using a calculate_readability_words [of "text"] get_text_stats_total [of "text"] by auto
  from a b c d show ?thesis by blast
qed

theorem words_need_sentences_witness:
  "get_words ''Hi there. Bye!'' = [''hi'', ''there'', ''bye''] \<and>
   get_sentences ''Hi there. Bye!'' \<noteq> [] \<and>
   calculate_readability ''Hi there. Bye!'' \<noteq> None \<and>
   get_words ''?! ...'' = [] \<and>
   (\<exists>r. calculate_readability ''?! ...'' = Some r \<and> difficulty r = ''unknown'')"
proof -
  have w: "get_words ''Hi there. Bye!'' = [''hi'', ''there'', ''bye'']" by code_simp
  then have ne: "get_words ''Hi there. Bye!'' \<noteq> []" by simp
  have e: "get_words ''?! ...'' = []" by code_simp
  from w ne e words_need_sentences [of "''Hi there. Bye!''"]
    words_need_sentences [of "''?! ...''"]
  show ?thesis by blast
qed

section \<open>Rounding\<close>











section \<open>Readability\<close>

lemma calculate_readability_value:
  assumes "get_words text \<noteq> []" "get_sentences text \<noteq> []"
  shows "calculate_readability text =
     Some \<lparr>flesch_reading_ease = py_round (clamp_0_100 (reading_ease text)) 2,
            flesch_grade_level = py_round (floor_at_0 (grade_level text)) 2,
            avg_sentence_length = py_round (avg_sentence_len text) 2,
            avg_word_length =
              py_round (of_nat (sum_list (map length (get_words text))) /
                        of_nat (length (get_words text))) 2,
            difficulty = difficulty_of (clamp_0_100 (reading_ease text))\<rparr>"
proof -
  have cl: "max 0 (min 100 x) = clamp_0_100 x" for x :: rat
    by (simp add: clamp_0_100_def max_def min_def)
  have fl: "max 0 x = floor_at_0 x" for x :: rat
    by (simp add: floor_at_0_def max_def)
  have td1: "truediv (of_nat (length (get_words text))) (of_nat (length (get_sentences text))) =
      Some (avg_sentence_len text)"
    using assms by (simp add: truediv_def avg_sentence_len_def)
  have td2: "truediv (of_nat (sum_list (map count_syllables (get_words text))))
        (of_nat (length (get_words text))) = Some (avg_syllables_per_word text)"
    using assms by (simp add: truediv_def avg_syllables_per_word_def)
  have td3: "truediv (of_nat (sum_list (map length (get_words text))))
        (of_nat (length (get_words text))) =
      Some (of_nat (sum_list (map length (get_words text))) / of_nat (length (get_words text)))"
    using assms by (simp add: truediv_def)
  have cl2: "floor_at_0 (min 100 x) = clamp_0_100 x" for x :: rat
    by (simp add: clamp_0_100_def floor_at_0_def min_def)
  have br: "(get_sentences text = [] \<or> get_words text = []) = False"
    using assms by simp
  show ?thesis
    by (simp only: calculate_readability_def Let_def td1 td2 td3 br if_False
        Option.bind.simps cl fl cl2 reading_ease_def grade_level_def)
qed







section \<open>Sentiment\<close>





lemma analyze_sentiment_value:
  assumes "get_words text \<noteq> []"
  shows "analyze_sentiment text =
     Some \<lparr>sentiment =
              (if negative_score text < positive_score text then ''positive''
               else if positive_score text < negative_score text then ''negative''
               else ''neutral''),
            confidence =
              py_round (if negative_score text < positive_score text then positive_score text
                        else if positive_score text < negative_score text
                        then negative_score text else 1 / 2) 3,
            scores = \<lparr>scores_positive = py_round (positive_score text) 3,
                      scores_negative = py_round (negative_score text) 3,
                      scores_neutral =
                        py_round (1 - positive_score text - negative_score text) 3\<rparr>\<rparr>"
proof -
  have td1: "truediv (of_nat (length (filter (\<lambda>w. w \<in> set POSITIVE_WORDS) (get_words text))))
        (of_nat (length (get_words text))) = Some (positive_score text)"
    using assms by (simp add: truediv_def positive_score_def)
  have td2: "truediv (of_nat (length (filter (\<lambda>w. w \<in> set NEGATIVE_WORDS) (get_words text))))
        (of_nat (length (get_words text))) = Some (negative_score text)"
    using assms by (simp add: truediv_def negative_score_def)
  have ne: "(length (get_words text) = 0) = False" using assms by simp
  show ?thesis
    unfolding analyze_sentiment_def Let_def td1 td2 ne
    by simp
qed






section \<open>Statistics\<close>










section \<open>Identifiers\<close>

lemma code_point_digit_char: "d < 10 \<Longrightarrow> code_point (digit_char d) = 48 + d"
  by (simp add: code_point_def digit_char_def)

lemma decimal_value_snoc:
  "decimal_value (ds @ [c]) = 10 * decimal_value ds + (code_point c - 48)"
  by (simp add: decimal_value_def)

lemma str_nat_small: "n < 10 \<Longrightarrow> str_nat n = [digit_char n]"
  by (subst str_nat.simps) simp

lemma str_nat_large:
  "\<not> n < 10 \<Longrightarrow> str_nat n = str_nat (n div 10) @ [digit_char (n mod 10)]"
  by (subst str_nat.simps) simp

lemma decimal_value_str_nat: "decimal_value (str_nat n) = n"
proof (induction n rule: str_nat.induct)
  case (1 n)
  show ?case
  proof (cases "n < 10")
    case True
    then show ?thesis
      by (simp add: str_nat_small decimal_value_def code_point_digit_char)
  next
    case False
    then have "decimal_value (str_nat (n div 10)) = n div 10" using "1.IH" by simp
    then have "decimal_value (str_nat (n div 10) @ [digit_char (n mod 10)]) = n"
      by (simp only: decimal_value_snoc) (simp add: code_point_digit_char)
    then show ?thesis by (simp only: str_nat_large [OF False])
  qed
qed

lemma str_int_nat: "str_int (int n) = str_nat n"
  by (simp add: str_int_def)

lemma str_int_inj:
  assumes "str_int (int m) = str_int (int n)"
  shows "m = n"
proof -
  from assms have "str_nat m = str_nat n" by (simp only: str_int_nat)
  then have "decimal_value (str_nat m) = decimal_value (str_nat n)" by (rule arg_cong)
  then show ?thesis by (simp only: decimal_value_str_nat)
qed

section \<open>The store's invariant\<close>

lemma update_fresh: "k \<notin> fst ` set al \<Longrightarrow> AList.update k v al = al @ [(k, v)]"
  by (induction al) auto

lemma fresh_id: "0 < n \<Longrightarrow> str_int (int n) \<notin> set (ids_upto n)"
proof
  assume "str_int (int n) \<in> set (ids_upto n)"
  then obtain k where "k < n" "str_int (int n) = str_int (int k)"
    unfolding ids_upto_def by auto
  then show False using str_int_inj [of n k] by simp
qed

lemma ids_upto_Suc: "0 < n \<Longrightarrow> ids_upto (Suc n) = ids_upto n @ [str_int (int n)]"
  by (simp add: ids_upto_def)

lemma add_document_inv:
  assumes "store_inv n s" "0 < n"
  shows "store_inv (Suc n) (snd (add_document now d s))"
    and "fst (add_document now d s) = str_int (int n)"
proof -
  from assms(1) have k: "map fst (documents s) = ids_upto n" and nx: "next_id s = int n"
    and idk: "map (\<lambda>kd. id' (snd kd)) (documents s) = map fst (documents s)"
    unfolding store_inv_def by blast+
  have "str_int (int n) \<notin> fst ` set (documents s)"
    using fresh_id [OF assms(2)] k by (metis set_map)
  then have upd: "AList.update (str_int (int n)) v (documents s) =
      documents s @ [(str_int (int n), v)]" for v
    by (rule update_fresh)
  show "store_inv (Suc n) (snd (add_document now d s))"
    unfolding store_inv_def add_document_def Let_def nx upd
    using k idk assms(2) by (simp add: ids_upto_Suc)
  show "fst (add_document now d s) = str_int (int n)"
    by (simp add: add_document_def Let_def nx)
qed

lemma add_documents_inv:
  "store_inv n s \<Longrightarrow> 0 < n \<Longrightarrow> store_inv (n + length ds) (add_documents clock k ds s)"
proof (induction ds arbitrary: n s k)
  case Nil
  then show ?case by simp
next
  case (Cons d ds)
  have "store_inv (Suc n) (snd (add_document (clock k) d s))"
    using add_document_inv(1) [OF Cons.prems] .
  then have "store_inv (Suc n + length ds)
      (add_documents clock (Suc k) ds (snd (add_document (clock k) d s)))"
    by (rule Cons.IH) simp
  then show ?case by simp
qed

lemma length_sample_docs: "length sample_docs = 16"
  by (simp add: sample_docs_def)

lemma init_inv: "store_inv 17 (DocumentStore_init clock)"
proof -
  have "store_inv 1 \<lparr>documents = [], next_id = 1\<rparr>"
    by (simp add: store_inv_def ids_upto_def)
  then have "store_inv (1 + length sample_docs)
      (add_documents clock 0 sample_docs \<lparr>documents = [], next_id = 1\<rparr>)"
    by (rule add_documents_inv) simp
  then show ?thesis
    by (simp add: DocumentStore_init_def initialize_sample_documents_def length_sample_docs)
qed

lemma reachable_inv: "reachable n s \<Longrightarrow> store_inv (17 + n) s"
proof (induction rule: reachable.induct)
  case (init clock)
  show ?case using init_inv by simp
next
  case (add n s now doc_data)
  then show ?case using add_document_inv(1) [of "17 + n" s now doc_data] by simp
next
  case (get n s i)
  then show ?case by (simp add: get_document_def)
next
  case (search n s query)
  then show ?case by (simp add: search_documents_def Let_def)
next
  case (list n s)
  then show ?case by (simp add: get_all_documents_def)
qed

lemma distinct_ids_upto: "distinct (ids_upto n)"
proof -
  have "inj_on (\<lambda>k. str_int (int k)) (set [1..<n])"
    by (rule inj_onI) (rule str_int_inj)
  then show ?thesis unfolding ids_upto_def by (simp add: distinct_map)
qed

lemma decimal_value_ids_upto: "map decimal_value (ids_upto n) = [1..<n]"
  unfolding ids_upto_def
  by (simp add: str_int_nat decimal_value_str_nat comp_def)

lemma ids_upto_17:
  "ids_upto 17 = map (\<lambda>c. [c]) ''123456789'' @ [''10'', ''11'', ''12'', ''13'', ''14'', ''15'', ''16'']"
  by code_simp


text \<open>
  C4: in every reachable state of the store the identifiers are unique; they are the
  decimal strings of 1, 2, 3, ... in insertion order, the 16 seed documents having "1" to
  "16" and the next \<open>add_document\<close> returning the string of the next number; so the list
  of all documents has as many entries as there were insertions, 16 plus the later ones.
\<close>

theorem store_ids:
  "(reachable n s \<longrightarrow>
      map id' (fst (get_all_documents s)) = map (\<lambda>k. str_int (int k)) [1..<17 + n] \<and>
      map fst (documents s) = map id' (fst (get_all_documents s)) \<and>
      distinct (map id' (fst (get_all_documents s))) \<and>
      map decimal_value (map id' (fst (get_all_documents s))) = [1..<17 + n] \<and>
      length (fst (get_all_documents s)) = 16 + n \<and>
      next_id s = 17 + int n \<and>
      fst (add_document now d s) = str_int (17 + int n)) \<and>
   map id' (fst (get_all_documents (DocumentStore_init clock))) =
     map (\<lambda>c. [c]) ''123456789'' @ [''10'', ''11'', ''12'', ''13'', ''14'', ''15'', ''16'']"
proof (intro conjI impI)
  assume "reachable n s"
  then have inv: "store_inv (17 + n) s" by (rule reachable_inv)
  then have k: "map fst (documents s) = ids_upto (17 + n)"
    and nx: "next_id s = int (17 + n)"
    and idk: "map (\<lambda>kd. id' (snd kd)) (documents s) = map fst (documents s)"
    unfolding store_inv_def by blast+
  have ga: "map id' (fst (get_all_documents s)) = ids_upto (17 + n)"
    using k idk by (simp add: get_all_documents_def comp_def)
  show "map id' (fst (get_all_documents s)) = map (\<lambda>k. str_int (int k)) [1..<17 + n]"
    using ga by (simp only: ids_upto_def)
  show "map fst (documents s) = map id' (fst (get_all_documents s))"
    using k ga by simp
  show "distinct (map id' (fst (get_all_documents s)))"
    unfolding ga by (rule distinct_ids_upto)
  show "map decimal_value (map id' (fst (get_all_documents s))) = [1..<17 + n]"
    unfolding ga by (rule decimal_value_ids_upto)
  have "length (map id' (fst (get_all_documents s))) = length (ids_upto (17 + n))"
    by (simp only: ga)
  then show "length (fst (get_all_documents s)) = 16 + n"
    by (simp add: ids_upto_def)
  show "next_id s = 17 + int n" using nx by simp
  have "fst (add_document now d s) = str_int (int (17 + n))"
    using add_document_inv(2) [OF inv] by simp
  then show "fst (add_document now d s) = str_int (17 + int n)" by simp
next
  have "store_inv 17 (DocumentStore_init clock)" by (rule init_inv)
  then have "map fst (documents (DocumentStore_init clock)) = ids_upto 17"
    and "map (\<lambda>kd. id' (snd kd)) (documents (DocumentStore_init clock)) =
         map fst (documents (DocumentStore_init clock))"
    unfolding store_inv_def by blast+
  then have "map id' (fst (get_all_documents (DocumentStore_init clock))) = ids_upto 17"
    by (simp add: get_all_documents_def comp_def)
  then show "map id' (fst (get_all_documents (DocumentStore_init clock))) =
     map (\<lambda>c. [c]) ''123456789'' @ [''10'', ''11'', ''12'', ''13'', ''14'', ''15'', ''16'']"
    by (simp only: ids_upto_17)
qed

theorem store_ids_witness:
  "reachable 1 (snd (add_document ''t1''
       \<lparr>title = ''T'', content = ''C'', author = None, category = None, tags = []\<rparr>
       (DocumentStore_init (\<lambda>k. ''t0'')))) \<and>
   length (fst (get_all_documents (snd (add_document ''t1''
       \<lparr>title = ''T'', content = ''C'', author = None, category = None, tags = []\<rparr>
       (DocumentStore_init (\<lambda>k. ''t0'')))))) = 17 \<and>
   fst (add_document ''t2''
       \<lparr>title = ''U'', content = ''D'', author = None, category = None, tags = []\<rparr>
       (snd (add_document ''t1''
       \<lparr>title = ''T'', content = ''C'', author = None, category = None, tags = []\<rparr>
       (DocumentStore_init (\<lambda>k. ''t0''))))) = ''18''"
proof -
  let ?s = "snd (add_document ''t1''
       \<lparr>title = ''T'', content = ''C'', author = None, category = None, tags = []\<rparr>
       (DocumentStore_init (\<lambda>k. ''t0'')))"
  let ?d = "\<lparr>title = ''U'', content = ''D'', author = None, category = None, tags = []\<rparr>"
  have r: "reachable 1 ?s"
    using reachable.add [OF reachable.init, of "''t1''" _ "\<lambda>k. ''t0''"] by simp
  have e: "str_int (17 + int 1) = ''18''" by code_simp
  from r store_ids [of 1 ?s "''t2''" ?d]
  have "length (fst (get_all_documents ?s)) = 16 + 1"
    and "fst (add_document ''t2'' ?d ?s) = str_int (17 + int 1)"
    by blast+
  with r e show ?thesis by simp
qed

section \<open>Searching\<close>

lemma contains_iff: "contains q s = is_substring q s"
proof -
  have "contains q s = sublist q s"
    by (induction s) (auto simp: sublist_Cons_right)
  then show ?thesis by (simp add: is_substring_def sublist_def)
qed

lemma contains_empty: "contains [] s"
  by (cases s) simp_all

lemma search_documents_value:
  "fst (search_documents query s) =
     filter (\<lambda>doc. is_substring (lower query) (lower (title doc)) \<or>
                   is_substring (lower query) (lower (content doc)) \<or>
                   (\<exists>tag\<in>set (tags doc). is_substring (lower query) (lower tag)))
            (fst (get_all_documents s))"
  by (simp add: search_documents_def get_all_documents_def Let_def contains_iff list_ex_iff)

lemma search_documents_order:
  assumes "reachable n s"
  shows "sorted_wrt (\<lambda>a b. decimal_value (id' a) < decimal_value (id' b))
           (fst (search_documents query s))"
proof -
  have inv: "store_inv (17 + n) s" using assms by (rule reachable_inv)
  then have "map fst (documents s) = ids_upto (17 + n)"
    and "map (\<lambda>kd. id' (snd kd)) (documents s) = map fst (documents s)"
    unfolding store_inv_def by blast+
  then have "map id' (map snd (documents s)) = ids_upto (17 + n)"
    by (simp add: comp_def)
  then have "map decimal_value (map id' (map snd (documents s))) = [1..<17 + n]"
    by (simp only: decimal_value_ids_upto)
  then have "map (\<lambda>d. decimal_value (id' d)) (map snd (documents s)) = [1..<17 + n]"
    by (simp add: comp_def)
  moreover have "sorted_wrt (<) [1..<17 + n]" by simp
  ultimately have "sorted_wrt (<) (map (\<lambda>d. decimal_value (id' d)) (map snd (documents s)))"
    by (simp only:)
  then have "sorted_wrt (\<lambda>a b. decimal_value (id' a) < decimal_value (id' b))
      (map snd (documents s))"
    by (simp only: sorted_wrt_map)
  then show ?thesis
    unfolding search_documents_def Let_def fst_conv by (rule sorted_wrt_filter)
qed

text \<open>
  C5: for every store and query, \<open>search_documents\<close> returns exactly the stored documents
  for which the lowercased query is a substring of the lowercased title, of the
  lowercased content or of some lowercased tag, in the order of the store (in a reachable
  store that is insertion order, the identifiers ascending); the empty query matches
  every document; and the store, with every document in it, is left as it was.
\<close>

theorem search_documents_spec:
  "fst (search_documents query s) =
     filter (\<lambda>doc. is_substring (lower query) (lower (title doc)) \<or>
                   is_substring (lower query) (lower (content doc)) \<or>
                   (\<exists>tag\<in>set (tags doc). is_substring (lower query) (lower tag)))
            (fst (get_all_documents s)) \<and>
   fst (search_documents [] s) = fst (get_all_documents s) \<and>
   snd (search_documents query s) = s \<and>
   (reachable n s \<longrightarrow>
      sorted_wrt (\<lambda>a b. decimal_value (id' a) < decimal_value (id' b))
        (fst (search_documents query s)))"
proof (intro conjI impI)
  show "fst (search_documents query s) =
     filter (\<lambda>doc. is_substring (lower query) (lower (title doc)) \<or>
                   is_substring (lower query) (lower (content doc)) \<or>
                   (\<exists>tag\<in>set (tags doc). is_substring (lower query) (lower tag)))
            (fst (get_all_documents s))"
    by (rule search_documents_value)
  show "fst (search_documents [] s) = fst (get_all_documents s)"
    by (simp add: search_documents_def get_all_documents_def Let_def lower_def contains_empty)
  show "snd (search_documents query s) = s"
    by (simp add: search_documents_def Let_def)
  show "sorted_wrt (\<lambda>a b. decimal_value (id' a) < decimal_value (id' b))
        (fst (search_documents query s))" if "reachable n s"
    using that by (rule search_documents_order)
qed


theorem search_documents_spec_witness:
  "reachable 0 (DocumentStore_init (\<lambda>k. ''t0'')) \<and>
   sorted_wrt (\<lambda>a b. decimal_value (id' a) < decimal_value (id' b))
     (fst (search_documents ''SLEEP'' (DocumentStore_init (\<lambda>k. ''t0'')))) \<and>
   snd (search_documents ''SLEEP'' (DocumentStore_init (\<lambda>k. ''t0''))) =
     DocumentStore_init (\<lambda>k. ''t0'') \<and>
   map id' (fst (search_documents ''CAT''
     \<lparr>documents =
        [(''1'', \<lparr>title = ''Dogs'', content = ''Bark.'', author = None, category = None,
                  tags = [''pets''], id' = ''1'', created_at = ''t1''\<rparr>),
         (''2'', \<lparr>title = ''Birds'', content = ''Sing.'', author = None, category = None,
                  tags = [''Edu-cation''], id' = ''2'', created_at = ''t2''\<rparr>)],
      next_id = 3\<rparr>)) = [''2'']"
proof -
  let ?s = "DocumentStore_init (\<lambda>k. ''t0'')"
  let ?s2 = "\<lparr>documents =
        [(''1'', \<lparr>title = ''Dogs'', content = ''Bark.'', author = None, category = None,
                  tags = [''pets''], id' = ''1'', created_at = ''t1''\<rparr>),
         (''2'', \<lparr>title = ''Birds'', content = ''Sing.'', author = None, category = None,
                  tags = [''Edu-cation''], id' = ''2'', created_at = ''t2''\<rparr>)],
      next_id = 3\<rparr>"
  have r: "reachable 0 ?s" by (rule reachable.init)
  from r search_documents_spec [of "''SLEEP''" ?s 0]
  have a: "snd (search_documents ''SLEEP'' ?s) = ?s"
    and b: "sorted_wrt (\<lambda>a b. decimal_value (id' a) < decimal_value (id' b))
          (fst (search_documents ''SLEEP'' ?s))"
    by blast+
  have e: "map id' (fst (search_documents ''CAT'' ?s2)) = [''2'']" by code_simp
  from r a b e show ?thesis by blast
qed

section \<open>Lookup and the not-found payload\<close>

lemma analyze_sentiment_total: "\<exists>r. analyze_sentiment text = Some r"
proof (cases "get_words text = []")
  case True
  then show ?thesis by (simp add: analyze_sentiment_def)
next
  case False
  then show ?thesis by (simp add: analyze_sentiment_value)
qed

lemma keyword_entries_total: "\<exists>ks. keyword_entries t items = Some ks"
proof (induction items)
  case Nil
  show ?case by simp
next
  case (Cons p items)
  then obtain ks where ks: "keyword_entries t items = Some ks" by blast
  obtain w c where p: "p = (w, c)" by (cases p)
  show ?case unfolding p by (simp add: ks truediv_def)
qed

lemma extract_keywords_total: "\<exists>ks. extract_keywords text limit = Some ks"
  unfolding extract_keywords_def Let_def by (rule keyword_entries_total)

lemma calculate_readability_total: "\<exists>r. calculate_readability text = Some r"
proof (cases "get_words text = [] \<or> get_sentences text = []")
  case True
  then show ?thesis by (auto simp: calculate_readability_def)
next
  case False
  then show ?thesis using calculate_readability_value [of "text"] by simp
qed

lemma analyze_document_found:
  assumes "map_of (documents s) i = Some d"
  shows "\<exists>a. fst (analyze_document now i s) = Some (Result a) \<and>
           analysis_document_id a = i \<and> analysis_title a = title d"
proof -
  obtain r1 where r1: "analyze_sentiment (content d) = Some r1"
    using analyze_sentiment_total by blast
  obtain r2 where r2: "extract_keywords (content d) 10 = Some r2"
    using extract_keywords_total by blast
  obtain r3 where r3: "calculate_readability (content d) = Some r3"
    using calculate_readability_total by blast
  obtain r4 where r4: "get_text_stats (content d) = Some r4"
    using get_text_stats_total [of "content d"] by blast
  show ?thesis
    by (simp add: analyze_document_def get_document_def assms Let_def r1 r2 r3 r4)
qed

lemma reachable_keys:
  assumes "reachable n s"
  shows "(map_of (documents s) i = None) =
         (i \<notin> set (map (\<lambda>k. str_int (int k)) [1..<17 + n]))"
proof -
  have "store_inv (17 + n) s" using assms by (rule reachable_inv)
  then have "map fst (documents s) = ids_upto (17 + n)"
    unfolding store_inv_def by blast
  then have "fst ` set (documents s) = set (map (\<lambda>k. str_int (int k)) [1..<17 + n])"
    unfolding ids_upto_def by (metis set_map)
  then show ?thesis by (simp only: map_of_eq_None_iff)
qed

text \<open>
  C6: for every identifier string, \<open>get_document\<close> returns the stored document when the
  identifier is a key of the store and the value \<open>None\<close>, not an exception, when it is
  not; the tools \<open>get_document_info\<close> and \<open>analyze_document\<close> then answer with the payload
  \<open>{"error": "Document with ID <id> not found"}\<close> instead of raising, and the store stays as
  it was.  Nothing else fails: the four analyses return a result for every text.
\<close>

theorem get_document_not_found:
  "(i \<in> fst ` set (documents s) \<longrightarrow>
      (\<exists>d. (i, d) \<in> set (documents s) \<and> fst (get_document i s) = Some d \<and>
           fst (get_document_info i s) = Result d \<and>
           (\<exists>a. fst (analyze_document now i s) = Some (Result a) \<and>
                analysis_document_id a = i \<and> analysis_title a = title d))) \<and>
   (i \<notin> fst ` set (documents s) \<longrightarrow>
      fst (get_document i s) = None \<and>
      fst (get_document_info i s) =
        Error_payload (''Document with ID '' @ i @ '' not found'') \<and>
      fst (analyze_document now i s) =
        Some (Error_payload (''Document with ID '' @ i @ '' not found''))) \<and>
   snd (get_document i s) = s \<and> snd (get_document_info i s) = s \<and>
   snd (analyze_document now i s) = s \<and>
   (\<exists>r. analyze_sentiment text = Some r) \<and> (\<exists>ks. extract_keywords text limit = Some ks) \<and>
   (\<exists>r. calculate_readability text = Some r) \<and> (\<exists>st. get_text_stats text = Some st) \<and>
   (reachable n s \<longrightarrow>
      (i \<in> fst ` set (documents s)) =
      (i \<in> set (map (\<lambda>k. str_int (int k)) [1..<17 + n])))"
proof (intro conjI impI)
  assume "i \<in> fst ` set (documents s)"
  then have "map_of (documents s) i \<noteq> None" by (simp only: map_of_eq_None_iff) simp
  then obtain d where d: "map_of (documents s) i = Some d" by blast
  then have m: "(i, d) \<in> set (documents s)" by (rule map_of_SomeD)
  have g: "fst (get_document i s) = Some d" by (simp add: get_document_def d)
  have gi: "fst (get_document_info i s) = Result d"
    by (simp add: get_document_info_def get_document_def d)
  from m g gi analyze_document_found [OF d, of now]
  show "\<exists>d. (i, d) \<in> set (documents s) \<and> fst (get_document i s) = Some d \<and>
           fst (get_document_info i s) = Result d \<and>
           (\<exists>a. fst (analyze_document now i s) = Some (Result a) \<and>
                analysis_document_id a = i \<and> analysis_title a = title d)"
    by blast
next
  assume "i \<notin> fst ` set (documents s)"
  then have n: "map_of (documents s) i = None" by (simp only: map_of_eq_None_iff) simp
  show "fst (get_document i s) = None" by (simp add: get_document_def n)
  show "fst (get_document_info i s) =
        Error_payload (''Document with ID '' @ i @ '' not found'')"
    by (simp add: get_document_info_def get_document_def n not_found_def)
  show "fst (analyze_document now i s) =
        Some (Error_payload (''Document with ID '' @ i @ '' not found''))"
    by (simp add: analyze_document_def get_document_def n not_found_def)
next
  show "snd (get_document i s) = s" by (simp add: get_document_def)
  show "snd (get_document_info i s) = s"
    by (simp add: get_document_info_def get_document_def split: option.split)
  show "snd (analyze_document now i s) = s"
    by (simp add: analyze_document_def get_document_def split: option.split)
  show "\<exists>r. analyze_sentiment text = Some r" by (rule analyze_sentiment_total)
  show "\<exists>ks. extract_keywords text limit = Some ks" by (rule extract_keywords_total)
  show "\<exists>r. calculate_readability text = Some r" by (rule calculate_readability_total)
  show "\<exists>st. get_text_stats text = Some st" using get_text_stats_total [of "text"] by blast
next
  assume "reachable n s"
  then show "(i \<in> fst ` set (documents s)) =
      (i \<in> set (map (\<lambda>k. str_int (int k)) [1..<17 + n]))"
    using reachable_keys [of n s i] by (simp only: map_of_eq_None_iff) blast
qed


theorem get_document_not_found_witness:
  "reachable 0 (DocumentStore_init (\<lambda>k. ''t0'')) \<and>
   fst (get_document ''17'' (DocumentStore_init (\<lambda>k. ''t0''))) = None \<and>
   fst (get_document_info ''17'' (DocumentStore_init (\<lambda>k. ''t0''))) =
     Error_payload ''Document with ID 17 not found'' \<and>
   fst (analyze_document ''now'' ''17'' (DocumentStore_init (\<lambda>k. ''t0''))) =
     Some (Error_payload ''Document with ID 17 not found'') \<and>
   snd (analyze_document ''now'' ''17'' (DocumentStore_init (\<lambda>k. ''t0''))) =
     DocumentStore_init (\<lambda>k. ''t0'') \<and>
   (\<exists>d. fst (get_document ''3'' (DocumentStore_init (\<lambda>k. ''t0''))) = Some d)"
proof -
  let ?s = "DocumentStore_init (\<lambda>k. ''t0'')"
  have r: "reachable 0 ?s" by (rule reachable.init)
  have ids: "map (\<lambda>k. str_int (int k)) [1..<17 + 0] =
     map (\<lambda>c. [c]) ''123456789'' @ [''10'', ''11'', ''12'', ''13'', ''14'', ''15'', ''16'']"
    by code_simp
  note t17 = get_document_not_found [of "''17''" ?s "''now''" "[]" 10 0]
  note t3 = get_document_not_found [of "''3''" ?s "''now''" "[]" 10 0]
  from r t17 have "(''17'' \<in> fst ` set (documents ?s)) =
      (''17'' \<in> set (map (\<lambda>k. str_int (int k)) [1..<17 + 0]))"
    by blast
  then have absent: "''17'' \<notin> fst ` set (documents ?s)"
    unfolding ids by simp
  from r t3 have "(''3'' \<in> fst ` set (documents ?s)) =
      (''3'' \<in> set (map (\<lambda>k. str_int (int k)) [1..<17 + 0]))"
    by blast
  then have present: "''3'' \<in> fst ` set (documents ?s)"
    unfolding ids by simp
  from absent t17 have a: "fst (get_document ''17'' ?s) = None"
    "fst (get_document_info ''17'' ?s) =
       Error_payload (''Document with ID '' @ ''17'' @ '' not found'')"
    "fst (analyze_document ''now'' ''17'' ?s) =
       Some (Error_payload (''Document with ID '' @ ''17'' @ '' not found''))"
    by blast+
  from t17 have b: "snd (analyze_document ''now'' ''17'' ?s) = ?s" by blast
  from present t3 have c: "\<exists>d. fst (get_document ''3'' ?s) = Some d" by blast
  from a have a': "fst (get_document_info ''17'' ?s) =
       Error_payload ''Document with ID 17 not found''"
    "fst (analyze_document ''now'' ''17'' ?s) =
       Some (Error_payload ''Document with ID 17 not found'')"
    by simp_all
  from r a(1) a' b c show ?thesis by blast
qed

section \<open>Counting\<close>

lemma first_seen_snoc:
  "first_seen (ws @ [w]) = (if w \<in> set ws then first_seen ws else first_seen ws @ [w])"
  by (simp add: first_seen_def)

lemma set_first_seen: "set (first_seen ws) = set ws"
  by (simp add: first_seen_def)

lemma distinct_first_seen: "distinct (first_seen ws)"
  by (simp add: first_seen_def)

lemma counter_add_fresh:
  "w \<notin> fst ` set acc \<Longrightarrow> counter_add acc w = acc @ [(w, 1)]"
proof -
  assume a: "w \<notin> fst ` set acc"
  then have "map_of acc w = None" by (simp only: map_of_eq_None_iff) simp
  with a show ?thesis by (simp add: counter_add_def update_fresh)
qed

lemma counter_add_present:
  "distinct (map fst acc) \<Longrightarrow> w \<in> fst ` set acc \<Longrightarrow>
   counter_add acc w = map (\<lambda>(k, c). (k, if k = w then c + 1 else c)) acc"
proof (induction acc)
  case Nil
  then show ?case by simp
next
  case (Cons p acc)
  obtain k c where p: "p = (k, c)" by (cases p)
  show ?case
  proof (cases "k = w")
    case True
    with Cons.prems p have "w \<notin> fst ` set acc" by auto
    then have "map (\<lambda>(k, c). (k, if k = w then c + 1 else c)) acc = acc"
      by (intro map_idI) force
    with True p show ?thesis by (simp add: counter_add_def)
  next
    case False
    with Cons.prems p have "distinct (map fst acc)" "w \<in> fst ` set acc" by auto
    then have "counter_add acc w = map (\<lambda>(k, c). (k, if k = w then c + 1 else c)) acc"
      by (rule Cons.IH)
    with False p show ?thesis by (simp add: counter_add_def)
  qed
qed

lemma Counter_snoc: "Counter (ws @ [w]) = counter_add (Counter ws) w"
  by (simp add: Counter_def)

lemma Counter_eq: "Counter ws = map (\<lambda>k. (k, count_list ws k)) (first_seen ws)"
proof (induction ws rule: rev_induct)
  case Nil
  show ?case by (simp add: Counter_def first_seen_def)
next
  case (snoc w ws)
  let ?acc = "map (\<lambda>k. (k, count_list ws k)) (first_seen ws)"
  have keys: "map fst ?acc = first_seen ws" by (simp add: comp_def)
  have "fst ` set ?acc = set (map fst ?acc)" by (simp only: set_map)
  then have ks: "fst ` set ?acc = set ws" by (simp only: keys set_first_seen)
  show ?case
  proof (cases "w \<in> set ws")
    case True
    have "counter_add ?acc w = map (\<lambda>(k, c). (k, if k = w then c + 1 else c)) ?acc"
    proof (rule counter_add_present)
      show "distinct (map fst ?acc)" by (simp only: keys distinct_first_seen)
      show "w \<in> fst ` set ?acc" using True ks by blast
    qed
    then show ?thesis
      by (simp add: Counter_snoc snoc.IH first_seen_snoc True comp_def)
  next
    case False
    have "counter_add ?acc w = ?acc @ [(w, 1)]"
    proof (rule counter_add_fresh)
      show "w \<notin> fst ` set ?acc" using False ks by blast
    qed
    moreover have "map (\<lambda>k. (k, count_list (ws @ [w]) k)) (first_seen ws) = ?acc"
      using False by (intro map_cong) (auto simp: set_first_seen)
    ultimately show ?thesis
      using False by (simp add: Counter_snoc snoc.IH first_seen_snoc)
  qed
qed


section \<open>Ranking\<close>

lemma first_pos_less: "k \<in> set ws \<Longrightarrow> first_pos ws k < length ws"
  unfolding first_pos_def by (induction ws) auto

lemma first_pos_snoc_old: "k \<in> set ws \<Longrightarrow> first_pos (ws @ [w]) k = first_pos ws k"
  unfolding first_pos_def by (simp add: takeWhile_append1)

lemma first_pos_snoc_new: "w \<notin> set ws \<Longrightarrow> first_pos (ws @ [w]) w = length ws"
  unfolding first_pos_def by (subst takeWhile_append2) auto

lemma sorted_first_seen:
  "sorted_wrt (\<lambda>a b. first_pos ws a < first_pos ws b) (first_seen ws)"
proof (induction ws rule: rev_induct)
  case Nil
  show ?case by (simp add: first_seen_def)
next
  case (snoc w ws)
  have old: "sorted_wrt (\<lambda>a b. first_pos (ws @ [w]) a < first_pos (ws @ [w]) b) (first_seen ws)"
    using snoc.IH
    by (rule sorted_wrt_mono_rel [rotated]) (simp add: set_first_seen first_pos_snoc_old)
  show ?case
  proof (cases "w \<in> set ws")
    case True
    with old show ?thesis by (simp add: first_seen_snoc)
  next
    case False
    have "first_pos (ws @ [w]) a < first_pos (ws @ [w]) w" if "a \<in> set (first_seen ws)" for a
      using that False
      by (simp add: set_first_seen first_pos_snoc_old first_pos_snoc_new first_pos_less)
    with old False show ?thesis
      by (simp add: first_seen_snoc sorted_wrt_append)
  qed
qed

lemma insort_key_map:
  "insort_key f (g x) (map g ys) = map g (insort_key (\<lambda>y. f (g y)) x ys)"
  by (induction ys) auto

lemma sort_key_map: "sort_key f (map g xs) = map g (sort_key (\<lambda>y. f (g y)) xs)"
  by (induction xs) (simp_all add: sort_key_simps insort_key_map)

lemma sorted_lex:
  "sorted (map h ys) \<Longrightarrow> (\<And>k. sorted_wrt R (filter (\<lambda>y. h y = k) ys)) \<Longrightarrow>
   sorted_wrt (\<lambda>a b. h a < h b \<or> (h a = h b \<and> R a b)) ys"
proof (induction ys)
  case Nil
  show ?case by simp
next
  case (Cons y ys)
  have tl: "sorted_wrt R (filter (\<lambda>x. h x = k) ys)" for k
    using Cons.prems(2) [of k] by (cases "h y = k") simp_all
  have IH: "sorted_wrt (\<lambda>a b. h a < h b \<or> (h a = h b \<and> R a b)) ys"
    using Cons.prems(1) tl by (intro Cons.IH) simp_all
  have hd: "h y < h z \<or> (h y = h z \<and> R y z)" if z: "z \<in> set ys" for z
  proof (cases "h y = h z")
    case True
    from Cons.prems(2) [of "h y"] have "\<forall>x\<in>set (filter (\<lambda>x. h x = h y) ys). R y x"
      by simp
    with z True show ?thesis by simp
  next
    case False
    moreover from Cons.prems(1) z have "h y \<le> h z" by simp
    ultimately show ?thesis by simp
  qed
  from IH hd show ?case by simp
qed


lemma most_common_eq:
  "most_common n (Counter ws) = map (\<lambda>k. (k, count_list ws k)) (take (nat n) (ranked ws))"
proof -
  have "sort_key (\<lambda>(w, c). - int c) (map (\<lambda>k. (k, count_list ws k)) (first_seen ws)) =
        map (\<lambda>k. (k, count_list ws k)) (ranked ws)"
    unfolding ranked_def by (subst sort_key_map) simp
  then show ?thesis
    by (simp add: most_common_def Counter_eq take_map)
qed

lemma distinct_ranked: "distinct (ranked ws)"
  by (simp add: ranked_def distinct_first_seen)

lemma set_ranked: "set (ranked ws) = set ws"
  by (simp add: ranked_def set_first_seen)

lemma sorted_ranked: "sorted_wrt (ranks_before ws) (ranked ws)"
proof -
  let ?h = "\<lambda>k. - int (count_list ws k)"
  let ?R = "\<lambda>a b. first_pos ws a < first_pos ws b"
  have s: "sorted (map ?h (ranked ws))"
    unfolding ranked_def by (rule sorted_sort_key)
  have f: "sorted_wrt ?R (filter (\<lambda>y. ?h y = k) (ranked ws))" for k
  proof -
    have "filter (\<lambda>y. ?h y = k) (ranked ws) = filter (\<lambda>y. ?h y = k) (first_seen ws)"
      unfolding ranked_def by (rule sort_key_stable)
    then show ?thesis
      by (simp only: sorted_wrt_filter [OF sorted_first_seen])
  qed
  have "sorted_wrt (\<lambda>a b. ?h a < ?h b \<or> (?h a = ?h b \<and> ?R a b)) (ranked ws)"
    using s f by (rule sorted_lex)
  then show ?thesis
    by (rule sorted_wrt_mono_rel [rotated]) (auto simp: ranks_before_def)
qed

lemma keyword_entries_map:
  "0 < tw \<Longrightarrow>
   keyword_entries tw (map (\<lambda>k. (k, c k)) ks) =
     Some (map (\<lambda>k. \<lparr>word = k, frequency = c k,
                       relevance = py_round (of_nat (c k) / of_nat tw) 3\<rparr>) ks)"
  by (induction ks) (simp_all add: truediv_def)

lemma extract_keywords_eq:
  "extract_keywords text limit =
     Some (map (keyword_of (filtered_words text))
               (take (nat limit) (ranked (filtered_words text))))"
proof (cases "filtered_words text = []")
  case True
  then show ?thesis
    by (simp add: extract_keywords_def Let_def most_common_eq ranked_def first_seen_def)
next
  case False
  then have "0 < length (filtered_words text)" by simp
  then show ?thesis
    unfolding extract_keywords_def Let_def most_common_eq
    by (simp only: keyword_entries_map) (simp add: keyword_of_def)
qed

text \<open>
  C3: for every text and integer limit, \<open>extract_keywords\<close> keeps exactly the normalised
  words that are not stop words and are longer than 2 characters (so "the" is dropped,
  long as it is), ranks the distinct kept words by descending frequency, equal
  frequencies in the order of first occurrence, and returns the first \<open>limit\<close> of them,
  each with its frequency: none for \<open>limit \<le> 0\<close>, all of them when \<open>limit\<close> is at least
  their number.
\<close>

theorem extract_keywords_ranking:
  "filtered_words text =
     filter (\<lambda>w. w \<notin> set STOP_WORDS \<and> 2 < length w) (get_words text) \<and>
   ''the'' \<in> set STOP_WORDS \<and> 2 < length ''the'' \<and>
   (\<exists>ranking. distinct ranking \<and> set ranking = set (filtered_words text) \<and>
      sorted_wrt (ranks_before (filtered_words text)) ranking \<and>
      extract_keywords text limit =
        Some (map (keyword_of (filtered_words text)) (take (nat limit) ranking)) \<and>
      (limit \<le> 0 \<longrightarrow> extract_keywords text limit = Some []) \<and>
      (int (length ranking) \<le> limit \<longrightarrow>
         extract_keywords text limit = Some (map (keyword_of (filtered_words text)) ranking)))"
proof (intro conjI)
  show "filtered_words text =
     filter (\<lambda>w. w \<notin> set STOP_WORDS \<and> 2 < length w) (get_words text)"
    by (simp add: filtered_words_def)
  show "''the'' \<in> set STOP_WORDS" by (simp add: STOP_WORDS_def)
  show "2 < length ''the''" by simp
  let ?r = "ranked (filtered_words text)"
  have e: "extract_keywords text limit =
        Some (map (keyword_of (filtered_words text)) (take (nat limit) ?r))"
    by (rule extract_keywords_eq)
  have z: "limit \<le> 0 \<longrightarrow> extract_keywords text limit = Some []"
    unfolding e by simp
  have a: "int (length ?r) \<le> limit \<longrightarrow>
         extract_keywords text limit = Some (map (keyword_of (filtered_words text)) ?r)"
    unfolding e by simp
  from distinct_ranked set_ranked sorted_ranked e z a
  show "\<exists>ranking. distinct ranking \<and> set ranking = set (filtered_words text) \<and>
      sorted_wrt (ranks_before (filtered_words text)) ranking \<and>
      extract_keywords text limit =
        Some (map (keyword_of (filtered_words text)) (take (nat limit) ranking)) \<and>
      (limit \<le> 0 \<longrightarrow> extract_keywords text limit = Some []) \<and>
      (int (length ranking) \<le> limit \<longrightarrow>
         extract_keywords text limit = Some (map (keyword_of (filtered_words text)) ranking))"
    by blast
qed


theorem extract_keywords_ranking_witness:
  "map_option (map word) (extract_keywords ''The dog, a cat; DOG emu: cat, dog!'' 2) =
     Some [''dog'', ''cat''] \<and>
   map_option (map frequency)
     (extract_keywords ''The dog, a cat; DOG emu: cat, dog!'' 2) = Some [3, 2] \<and>
   extract_keywords ''The dog, a cat; DOG emu: cat, dog!'' (- 1) = Some [] \<and>
   (\<exists>ranking. distinct ranking \<and>
      sorted_wrt (ranks_before
        (filtered_words ''The dog, a cat; DOG emu: cat, dog!'')) ranking \<and>
      extract_keywords ''The dog, a cat; DOG emu: cat, dog!'' 2 =
        Some (map (keyword_of
          (filtered_words ''The dog, a cat; DOG emu: cat, dog!''))
          (take (nat 2) ranking)))"
proof -
  let ?t = "''The dog, a cat; DOG emu: cat, dog!''"
  have w: "map_option (map word) (extract_keywords ?t 2) = Some [''dog'', ''cat'']"
    by code_simp
  have f: "map_option (map frequency) (extract_keywords ?t 2) = Some [3, 2]"
    by code_simp
  have "(- 1 :: int) \<le> 0" by simp
  with extract_keywords_ranking [of ?t "- 1"]
  have n: "extract_keywords ?t (- 1) = Some []" by blast
  from extract_keywords_ranking [of ?t 2]
  have r: "\<exists>ranking. distinct ranking \<and>
      sorted_wrt (ranks_before (filtered_words ?t)) ranking \<and>
      extract_keywords ?t 2 =
        Some (map (keyword_of (filtered_words ?t)) (take (nat 2) ranking))"
    by blast
  from w f n r show ?thesis by blast
qed

section \<open>Relevance\<close>










end
